theory Spec2Isabelle
  imports Complex_Main "HOL-Library.Monad_Syntax"
begin

unbundle bit_operations_syntax

section \<open>PyContacTracing: the agent state machine and the day-stepped engine\<close>

text \<open>
  A shallow embedding of \<^verbatim>\<open>src/PyContacTracing.py\<close>.

  \<^item> Python's unbounded integers are \<^typ>\<open>int\<close>.
  \<^item> Python's floats (probabilities, \<^verbatim>\<open>riskcounter\<close>, \<^verbatim>\<open>POP\<close>) are idealised as
    \<^typ>\<open>rat\<close>: every float is a rational, rounding is not modelled.
  \<^item> The module \<^verbatim>\<open>random\<close> is not part of the repository. Its successive results are
    a parameter \<open>src\<close>, the sequence of values that \<^verbatim>\<open>random.random()\<close> returns, and
    the state of the generator is the position \<open>k\<close> of the next value: each call of
    \<^verbatim>\<open>random.random()\<close> reads \<open>src k\<close> and moves to \<open>Suc k\<close>.
  \<^item> The module constants and the class \<^verbatim>\<open>humanParams\<close> are records passed to every
    operation, so that the theorems hold for every configuration; the values of the
    source are \<open>defaultSim\<close> and \<open>defaultHP\<close>.
  \<^item> \<^verbatim>\<open>DAYS\<close> and \<^verbatim>\<open>DAY0_INFECTED\<close> are counts, of type \<^typ>\<open>nat\<close>. The arrays of
    \<^verbatim>\<open>experiment.run\<close> have \<^verbatim>\<open>DAYS\<close> entries and are written at the index of the current
    day only, which is in range; their entries are counts, of type \<^typ>\<open>int\<close>.
  \<^item> What the source prints is left out.
\<close>

subsection \<open>Parameters\<close>

record simParams =
  POP :: rat
  DAYS :: nat
  EFFICIENCY_REDUCTION :: rat
  DEFER_SWAB_DAYS :: int
  DAY0_INFECTED :: nat

definition defaultSim :: simParams where
  "defaultSim = \<lparr>POP = 50000, DAYS = 120, EFFICIENCY_REDUCTION = 1/10,
     DEFER_SWAB_DAYS = 2, DAY0_INFECTED = 500\<rparr>"

definition DO_INFECT :: int where
  "DO_INFECT = 1"

definition DO_ALARM :: int where
  "DO_ALARM = 2"

datatype status = healthy | incub | illquarant | recovered | dead

record humanParams =
  R0 :: rat
  Ti :: int
  Tr :: int
  Td :: int
  Tq :: int
  Pd :: rat
  Pi :: rat
  meeting :: int
  amtHasApp :: rat
  swabAvailabilityProbability :: rat

definition defaultHP :: humanParams where
  "defaultHP = \<lparr>R0 = 3, Ti = 7, Tr = 21, Td = 15, Tq = 7 + 3, Pd = 2/10, Pi = 3/7,
     meeting = 30, amtHasApp = 0, swabAvailabilityProbability = 1\<rparr>"

definition setR0 :: "rat \<Rightarrow> humanParams \<Rightarrow> humanParams" where
  "setR0 r0 hp = hp\<lparr>R0 := r0, Pi := r0 / of_int (Ti hp)\<rparr>"

subsection \<open>The agent\<close>

type_synonym source = "nat \<Rightarrow> rat"

text \<open>
  The class \<^verbatim>\<open>human\<close>. The field \<^verbatim>\<open>id\<close> is \<open>hid\<close> (\<open>id\<close> is the identity function
  of HOL); the field \<^verbatim>\<open>hp\<close>, a reference to the shared parameters, is the argument
  \<open>hp\<close> of the operations.
\<close>

record human =
  st :: status
  hid :: int
  icounter :: int
  riskcounter :: rat
  willdie :: bool
  safequarantinectr :: int
  hasApp :: bool
  meetingList :: "int list"
  defer_alarm :: int

text \<open>\<^verbatim>\<open>human.__init__\<close>: the class attributes are the initial values; one draw decides \<^verbatim>\<open>hasApp\<close>.\<close>

definition human_init :: "humanParams \<Rightarrow> source \<Rightarrow> nat \<Rightarrow> int \<Rightarrow> human \<times> nat" where
  "human_init hp src k i =
     (\<lparr>st = healthy, hid = i, icounter = 0, riskcounter = 0, willdie = False,
       safequarantinectr = 0, hasApp = (src k < amtHasApp hp), meetingList = [],
       defer_alarm = 0\<rparr>, Suc k)"

definition getId :: "human \<Rightarrow> int" where
  "getId h = hid h"

definition infect :: "humanParams \<Rightarrow> human \<Rightarrow> int \<times> human" where
  "infect hp h =
     (if st h = healthy then (1, h\<lparr>st := incub, icounter := Ti hp\<rparr>)
      else (0, h))"

text \<open>\<^verbatim>\<open>human.incubend\<close> returns the flag, the agent and the position of the next draw.\<close>

definition incubend :: "simParams \<Rightarrow> humanParams \<Rightarrow> source \<Rightarrow> nat \<Rightarrow> human \<Rightarrow> int \<times> human \<times> nat" where
  "incubend sp hp src k h =
     (let wd = (src k < Pd hp);
          k1 = Suc k;
          h1 = h\<lparr>willdie := wd\<rparr>;
          h2 = (if willdie h1 then h1\<lparr>icounter := Td hp\<rparr> else h1\<lparr>icounter := Tr hp\<rparr>);
          h3 = h2\<lparr>st := illquarant\<rparr>
      in if hasApp h3 then
           (if src k1 < swabAvailabilityProbability hp then
              (if DEFER_SWAB_DAYS sp \<noteq> 0
               then (0, h3\<lparr>defer_alarm := DEFER_SWAB_DAYS sp\<rparr>, Suc k1)
               else (DO_ALARM, h3, Suc k1))
            else (0, h3, Suc k1))
         else (0, h3, k1))"

definition appAlarm :: "simParams \<Rightarrow> humanParams \<Rightarrow> source \<Rightarrow> nat \<Rightarrow> int \<Rightarrow> human \<Rightarrow> human \<times> nat" where
  "appAlarm sp hp src k parent h =
     (if hasApp h then
        (if src k > EFFICIENCY_REDUCTION sp
         then (h\<lparr>safequarantinectr := Tq hp\<rparr>, Suc k)
         else (h, Suc k))
      else (h, k))"

definition quarantineEnd :: "human \<Rightarrow> human" where
  "quarantineEnd h = h\<lparr>st := healthy\<rparr>"

definition isMeetable :: "human \<Rightarrow> bool" where
  "isMeetable h = (if st h = healthy \<and> safequarantinectr h = 0 then True else False)"

definition addMet :: "int \<Rightarrow> human \<Rightarrow> human" where
  "addMet guyID h = h\<lparr>meetingList := meetingList h @ [guyID]\<rparr>"

definition isDead :: "human \<Rightarrow> int" where
  "isDead h = (if st h = dead then 1 else 0)"

definition knowsIsInfected :: "human \<Rightarrow> int" where
  "knowsIsInfected h = (if st h = illquarant then 1 else 0)"

definition isInfected :: "human \<Rightarrow> int" where
  "isInfected h = (if st h = illquarant \<or> st h = incub then 1 else 0)"

definition isRecovered :: "human \<Rightarrow> int" where
  "isRecovered h = (if st h = recovered then 1 else 0)"

definition isHealthy :: "human \<Rightarrow> int" where
  "isHealthy h = (if st h = healthy then 1 else 0)"

definition getStatus :: "human \<Rightarrow> status" where
  "getStatus h = st h"

text \<open>
  \<^verbatim>\<open>human.step\<close>, in the three blocks of the source. The first block is the
  quarantine counter (lines 161 to 164).
\<close>

definition step_quarantine :: "human \<Rightarrow> human" where
  "step_quarantine h =
     (if safequarantinectr h > 0 then
        (let h1 = h\<lparr>safequarantinectr := safequarantinectr h - 1\<rparr>
         in if safequarantinectr h1 = 0 then quarantineEnd h1 else h1)
      else h)"

text \<open>The block of the incubating agent (lines 166 to 174), entered with \<^verbatim>\<open>retval\<close> = 0.\<close>

definition step_incub :: "simParams \<Rightarrow> humanParams \<Rightarrow> source \<Rightarrow> nat \<Rightarrow> human \<Rightarrow> int \<times> human \<times> nat" where
  "step_incub sp hp src k h =
     (if st h = incub then
        (let (r1, h1) =
               (if safequarantinectr h < 1 then
                  (let ha = h\<lparr>riskcounter := riskcounter h + Pi hp\<rparr>
                   in if riskcounter ha > 1
                      then (0 + DO_INFECT, ha\<lparr>riskcounter := riskcounter ha - 1\<rparr>)
                      else (0, ha))
                else (0, h));
             h2 = h1\<lparr>icounter := icounter h1 - 1\<rparr>
         in if icounter h2 = 0 then
              (let (r, h3, k3) = incubend sp hp src k h2 in (r1 + r, h3, k3))
            else (r1, h2, k))
      else (0, h, k))"

text \<open>The block of the ill agent (lines 175 to 184), entered with the \<^verbatim>\<open>retval\<close> of the block before.\<close>

definition step_ill :: "int \<Rightarrow> human \<Rightarrow> int \<times> human" where
  "step_ill retval h =
     (if st h = illquarant then
        (let h1 = h\<lparr>icounter := icounter h - 1\<rparr>;
             h2 = h1\<lparr>defer_alarm := defer_alarm h1 - 1\<rparr>;
             r = (if defer_alarm h2 = 0 then DO_ALARM else retval)
         in if icounter h2 = 0 then
              (if willdie h2 then (r, h2\<lparr>st := dead\<rparr>) else (r, h2\<lparr>st := recovered\<rparr>))
            else (r, h2))
      else (retval, h))"

definition step :: "simParams \<Rightarrow> humanParams \<Rightarrow> source \<Rightarrow> nat \<Rightarrow> human \<Rightarrow> int \<times> human \<times> nat" where
  "step sp hp src k h =
     (let (r, h2, k2) = step_incub sp hp src k (step_quarantine h);
          (r', h3) = step_ill r h2
      in (r', h3, k2))"


subsection \<open>The engine\<close>

text \<open>
  The only exception the engine can raise is the \<^verbatim>\<open>IndexError\<close> of a list access out of
  range; it is the result \<open>None\<close>. A Python index \<open>i\<close> into a list of length \<open>n\<close> is
  valid from \<open>- n\<close> to \<open>n - 1\<close>, the negative ones counting from the end.
\<close>

definition index_of :: "'a list \<Rightarrow> int \<Rightarrow> nat option" where
  "index_of xs i =
     (if 0 \<le> i \<and> i < int (length xs) then Some (nat i)
      else if - int (length xs) \<le> i \<and> i < 0 then Some (nat (int (length xs) + i))
      else None)"

text \<open>\<^verbatim>\<open>int(x)\<close> on a float truncates towards zero.\<close>

definition py_int :: "rat \<Rightarrow> int" where
  "py_int x = (if 0 \<le> x then \<lfloor>x\<rfloor> else \<lceil>x\<rceil>)"

text \<open>\<^verbatim>\<open>range(n)\<close>, empty when \<open>n \<le> 0\<close>.\<close>

definition range_py :: "int \<Rightarrow> int list" where
  "range_py n = [0..n - 1]"

text \<open>
  The state of a run: the population of the \<^verbatim>\<open>experiment\<close>, the position \<open>rng\<close> of the
  next draw, and the local variables of \<^verbatim>\<open>experiment.run\<close>. The arrays of numpy hold
  counts; they are lists of integers.
\<close>

record run_state =
  listpop :: "human list"
  rng :: nat
  skipContagi :: bool
  ninfec :: "int list"
  ndead :: "int list"
  nrecovered :: "int list"
  ntotal :: "int list"
  nhealthy :: "int list"

text \<open>\<^verbatim>\<open>experiment.__init__\<close>: the population is built, then the first agents are infected.\<close>

fun build_pop :: "humanParams \<Rightarrow> source \<Rightarrow> int list \<Rightarrow> human list \<times> nat \<Rightarrow> human list \<times> nat" where
  "build_pop hp src [] (pop, k) = (pop, k)"
| "build_pop hp src (i # is) (pop, k) =
     (let (h, k') = human_init hp src k i in build_pop hp src is (pop @ [h], k'))"

fun seed_pop :: "humanParams \<Rightarrow> int list \<Rightarrow> human list \<Rightarrow> human list option" where
  "seed_pop hp [] pop = Some pop"
| "seed_pop hp (i # is) pop =
     do {
       n \<leftarrow> index_of pop i;
       seed_pop hp is (pop[n := snd (infect hp (pop ! n))])
     }"

definition experiment_init :: "simParams \<Rightarrow> humanParams \<Rightarrow> source \<Rightarrow> nat \<Rightarrow> (human list \<times> nat) option" where
  "experiment_init sp hp src k =
     (let (pop, k') = build_pop hp src (range_py (py_int (POP sp))) ([], k)
      in do {
        pop' \<leftarrow> seed_pop hp (range_py (int (DAY0_INFECTED sp))) pop;
        Some (pop', k')
      })"

text \<open>The loop of lines 218 to 221: a random agent is infected, until one was healthy.\<close>

function infect_loop :: "simParams \<Rightarrow> humanParams \<Rightarrow> source \<Rightarrow> int \<Rightarrow> int \<Rightarrow> run_state \<Rightarrow> run_state option" where
  "infect_loop sp hp src OK deadlockctr s =
     (if OK = 0 \<and> deadlockctr < py_int (POP sp) \<and> \<not> skipContagi s then
        (let randomguy = \<lfloor>src (rng s) * POP sp\<rfloor>
         in case index_of (listpop s) randomguy of
              None \<Rightarrow> None
            | Some n \<Rightarrow>
                infect_loop sp hp src (fst (infect hp (listpop s ! n))) (deadlockctr + 1)
                  (s\<lparr>listpop := (listpop s)[n := snd (infect hp (listpop s ! n))],
                     rng := Suc (rng s)\<rparr>))
      else Some s)"
  by pat_completeness auto
termination
  by (relation "measure (\<lambda>(sp, hp, src, ok, d, s). nat (py_int (POP sp) - d))") auto

text \<open>The loop of lines 225 to 230: agent \<open>i\<close> records the meetable agents it draws.\<close>

function meet_loop :: "simParams \<Rightarrow> humanParams \<Rightarrow> source \<Rightarrow> int \<Rightarrow> int \<Rightarrow> int \<Rightarrow> run_state \<Rightarrow> run_state option" where
  "meet_loop sp hp src i tomeet deadlockctr s =
     (if tomeet > 0 \<and> of_int deadlockctr < (1/2) * (of_int (py_int (POP sp)) :: rat) \<and> \<not> skipContagi s then
        (let randomguy = \<lfloor>src (rng s) * POP sp\<rfloor>;
             s1 = s\<lparr>rng := Suc (rng s)\<rparr>
         in case index_of (listpop s1) randomguy of
              None \<Rightarrow> None
            | Some n \<Rightarrow>
                if isMeetable (listpop s1 ! n) then
                  (case index_of (listpop s1) i of
                     None \<Rightarrow> None
                   | Some m \<Rightarrow>
                       meet_loop sp hp src i (tomeet - 1) (deadlockctr + 1)
                         (s1\<lparr>listpop := (listpop s1)[m := addMet (getId (listpop s1 ! n)) (listpop s1 ! m)]\<rparr>))
                else meet_loop sp hp src i tomeet (deadlockctr + 1) s1)
      else Some s)"
  by pat_completeness auto
termination
  by (relation "measure (\<lambda>(sp, hp, src, i, t, d, s). nat (py_int (POP sp) - 2 * d))") auto

text \<open>The loop of lines 232 and 233: every agent of the meeting list receives the alarm.\<close>

fun alarm_loop :: "simParams \<Rightarrow> humanParams \<Rightarrow> source \<Rightarrow> int \<Rightarrow> int list \<Rightarrow> run_state \<Rightarrow> run_state option" where
  "alarm_loop sp hp src i [] s = Some s"
| "alarm_loop sp hp src i (j # js) s =
     do {
       n \<leftarrow> index_of (listpop s) j;
       m \<leftarrow> index_of (listpop s) i;
       let (h, k) = appAlarm sp hp src (rng s) (getId (listpop s ! m)) (listpop s ! n);
       alarm_loop sp hp src i js (s\<lparr>listpop := (listpop s)[n := h], rng := k\<rparr>)
     }"

text \<open>The counters of the day (lines 235 to 238).\<close>

definition tally :: "nat \<Rightarrow> human \<Rightarrow> run_state \<Rightarrow> run_state" where
  "tally day h s =
     s\<lparr>ninfec := (ninfec s)[day := ninfec s ! day + isInfected h],
       ndead := (ndead s)[day := ndead s ! day + isDead h],
       nrecovered := (nrecovered s)[day := nrecovered s ! day + isRecovered h],
       nhealthy := (nhealthy s)[day := nhealthy s ! day + isHealthy h]\<rparr>"

text \<open>The body of the loop over the agents (lines 214 to 238), for agent \<open>i\<close>.\<close>

definition agent_turn :: "simParams \<Rightarrow> humanParams \<Rightarrow> source \<Rightarrow> nat \<Rightarrow> int \<Rightarrow> run_state \<Rightarrow> run_state option" where
  "agent_turn sp hp src day i s =
     do {
       n \<leftarrow> index_of (listpop s) i;
       let (retval, h, k) = step sp hp src (rng s) (listpop s ! n);
       let s1 = s\<lparr>listpop := (listpop s)[n := h], rng := k\<rparr>;
       s2 \<leftarrow> (if retval AND DO_INFECT \<noteq> 0 then infect_loop sp hp src 0 0 s1 else Some s1);
       s3 \<leftarrow> (if getStatus (listpop s2 ! n) = incub
               then meet_loop sp hp src i (meeting hp) 0 s2 else Some s2);
       s4 \<leftarrow> (if retval AND DO_ALARM \<noteq> 0
               then alarm_loop sp hp src i (meetingList (listpop s3 ! n)) s3 else Some s3);
       Some (tally day (listpop s4 ! n) s4)
     }"

fun agents_loop :: "simParams \<Rightarrow> humanParams \<Rightarrow> source \<Rightarrow> nat \<Rightarrow> int list \<Rightarrow> run_state \<Rightarrow> run_state option" where
  "agents_loop sp hp src day [] s = Some s"
| "agents_loop sp hp src day (i # is) s =
     do {
       s' \<leftarrow> agent_turn sp hp src day i s;
       agents_loop sp hp src day is s'
     }"

text \<open>The end of a day (lines 240 to 243).\<close>

definition day_end :: "simParams \<Rightarrow> nat \<Rightarrow> run_state \<Rightarrow> run_state" where
  "day_end sp day s =
     (let s1 = s\<lparr>ntotal := (ntotal s)[day := ninfec s ! day + ndead s ! day + nrecovered s ! day + nhealthy s ! day]\<rparr>
      in if of_int (nhealthy s1 ! day) < (3/10) * POP sp then s1\<lparr>skipContagi := True\<rparr> else s1)"

fun days_loop :: "simParams \<Rightarrow> humanParams \<Rightarrow> source \<Rightarrow> nat list \<Rightarrow> run_state \<Rightarrow> run_state option" where
  "days_loop sp hp src [] s = Some s"
| "days_loop sp hp src (day # days) s =
     do {
       s' \<leftarrow> agents_loop sp hp src day (range_py (py_int (POP sp))) s;
       days_loop sp hp src days (day_end sp day s')
     }"

text \<open>The state in which \<^verbatim>\<open>experiment.run\<close> enters its loop (lines 206 to 211).\<close>

definition run_start :: "simParams \<Rightarrow> human list \<Rightarrow> nat \<Rightarrow> run_state" where
  "run_start sp pop k =
     \<lparr>listpop = pop, rng = k, skipContagi = False,
      ninfec = replicate (DAYS sp) 0, ndead = replicate (DAYS sp) 0,
      nrecovered = replicate (DAYS sp) 0, ntotal = replicate (DAYS sp) 0,
      nhealthy = replicate (DAYS sp) 0\<rparr>"

definition run_loop :: "simParams \<Rightarrow> humanParams \<Rightarrow> source \<Rightarrow> human list \<Rightarrow> nat \<Rightarrow> run_state option" where
  "run_loop sp hp src pop k = days_loop sp hp src [0..<DAYS sp] (run_start sp pop k)"

definition run :: "simParams \<Rightarrow> humanParams \<Rightarrow> source \<Rightarrow> human list \<Rightarrow> nat \<Rightarrow> (int list \<times> int list \<times> int list) option" where
  "run sp hp src pop k =
     do {
       s \<leftarrow> run_loop sp hp src pop k;
       Some (ninfec s, ndead s, nrecovered s)
     }"

section \<open>Consecutive calls and the agents of the examples\<close>

text \<open>
  \<open>after_steps n\<close> is the agent after \<open>n\<close> consecutive calls of \<^verbatim>\<open>step\<close>, and
  \<open>step_retval n\<close> is the value that the call number \<open>n + 1\<close> returns.
\<close>

fun after_steps :: "simParams \<Rightarrow> humanParams \<Rightarrow> source \<Rightarrow> nat \<Rightarrow> human \<times> nat \<Rightarrow> human \<times> nat" where
  "after_steps sp hp src 0 s = s"
| "after_steps sp hp src (Suc n) s =
     (let (h, k) = after_steps sp hp src n s in snd (step sp hp src k h))"

definition step_retval :: "simParams \<Rightarrow> humanParams \<Rightarrow> source \<Rightarrow> nat \<Rightarrow> human \<times> nat \<Rightarrow> int" where
  "step_retval sp hp src n s = (let (h, k) = after_steps sp hp src n s in fst (step sp hp src k h))"

text \<open>
  What \<^verbatim>\<open>incubend\<close> decides from its two draws: whether the alarm is armed (lines 96
  to 99), and the length of the illness (lines 89 to 93).
\<close>

definition alarm_armed :: "simParams \<Rightarrow> humanParams \<Rightarrow> source \<Rightarrow> nat \<Rightarrow> human \<Rightarrow> bool" where
  "alarm_armed sp hp src k h =
     (hasApp h \<and> src (Suc k) < swabAvailabilityProbability hp \<and> DEFER_SWAB_DAYS sp \<noteq> 0)"

definition illness_days :: "humanParams \<Rightarrow> source \<Rightarrow> nat \<Rightarrow> int" where
  "illness_days hp src k = (if src k < Pd hp then Td hp else Tr hp)"

text \<open>The parameters of the experiment of the source (lines 250 to 252).\<close>

definition hp1 :: humanParams where
  "hp1 = defaultHP\<lparr>amtHasApp := 7/10, swabAvailabilityProbability := 75/100\<rparr>"

text \<open>
  A sequence of calls on one agent, as the engine makes them: \<^verbatim>\<open>step\<close> once a day,
  \<^verbatim>\<open>infect\<close> when the agent is drawn as a target, \<^verbatim>\<open>appAlarm\<close> when an agent that met it
  raises the alarm.
\<close>

datatype call = Step | Infect | AppAlarm

fun calls :: "simParams \<Rightarrow> humanParams \<Rightarrow> source \<Rightarrow> call list \<Rightarrow> human \<times> nat \<Rightarrow> human \<times> nat" where
  "calls sp hp src [] s = s"
| "calls sp hp src (Step # cs) (h, k) = calls sp hp src cs (snd (step sp hp src k h))"
| "calls sp hp src (Infect # cs) (h, k) = calls sp hp src cs (snd (infect hp h), k)"
| "calls sp hp src (AppAlarm # cs) (h, k) = calls sp hp src cs (appAlarm sp hp src k 0 h)"

text \<open>Sequences of draws for the examples.\<close>

definition half :: source where
  "half = (\<lambda>k. 1/2)"

definition src1 :: source where
  "src1 = (\<lambda>k. if k = 1 then 1/10 else 1/2)"

definition src3 :: source where
  "src3 = (\<lambda>k. if k = 8 then 9/10 else 1/2)"

definition src7 :: source where
  "src7 = (\<lambda>k. if k = 2 then 1/10 else 1/2)"

text \<open>
  Agents of the examples. Each of them is the result of a sequence of calls on a new
  agent (lemmas \<open>relapsed_reached\<close>, \<open>both_flags_reached\<close>, \<open>ill_again_reached\<close> and
  \<open>quarantined_incub_reached\<close>).
\<close>

definition relapsed :: human where
  "relapsed = \<lparr>st = healthy, hid = 0, icounter = 17, riskcounter = 3/7, willdie = False,
     safequarantinectr = 0, hasApp = True, meetingList = [], defer_alarm = - 2\<rparr>"

definition both_flags :: human where
  "both_flags = \<lparr>st = incub, hid = 0, icounter = 1, riskcounter = 6/7, willdie = False,
     safequarantinectr = 0, hasApp = True, meetingList = [], defer_alarm = 1\<rparr>"

definition ill_again :: human where
  "ill_again = \<lparr>st = incub, hid = 0, icounter = 1, riskcounter = 1, willdie = True,
     safequarantinectr = 0, hasApp = True, meetingList = [], defer_alarm = - 2\<rparr>"

definition quarantined_incub :: human where
  "quarantined_incub = \<lparr>st = incub, hid = 0, icounter = 1, riskcounter = 0, willdie = False,
     safequarantinectr = 2, hasApp = True, meetingList = [], defer_alarm = 0\<rparr>"

definition free_incub :: human where
  "free_incub = \<lparr>st = incub, hid = 0, icounter = 1, riskcounter = 0, willdie = False,
     safequarantinectr = 0, hasApp = True, meetingList = [], defer_alarm = 0\<rparr>"

text \<open>
  The sum of the four counters of a day, the common length of the four arrays, and what
  the loops of lines 218 to 233 leave unchanged in the state of the run.
\<close>

definition day_total :: "run_state \<Rightarrow> nat \<Rightarrow> int" where
  "day_total s d = nhealthy s ! d + ninfec s ! d + nrecovered s ! d + ndead s ! d"

definition counts_len :: "run_state \<Rightarrow> nat \<Rightarrow> bool" where
  "counts_len s n =
     (length (ninfec s) = n \<and> length (ndead s) = n \<and> length (nrecovered s) = n \<and> length (nhealthy s) = n)"

definition frame :: "run_state \<Rightarrow> run_state \<Rightarrow> bool" where
  "frame s s' =
     (ninfec s' = ninfec s \<and> ndead s' = ndead s \<and> nrecovered s' = nrecovered s
      \<and> nhealthy s' = nhealthy s \<and> ntotal s' = ntotal s \<and> skipContagi s' = skipContagi s
      \<and> length (listpop s') = length (listpop s))"

text \<open>
  The engine without the randomized sampling, following the words of the specification
  (section 4.3, the degenerate-case guard): the engine performs steps 1, 4 and 5 for each
  agent, that is the agent's own \<^verbatim>\<open>step\<close>, the alarm to the agents it met and the
  counters, but neither the sampling of an infection target (step 2) nor the sampling of
  contacts (step 3).
\<close>

definition quiet_turn :: "simParams \<Rightarrow> humanParams \<Rightarrow> source \<Rightarrow> nat \<Rightarrow> int \<Rightarrow> run_state \<Rightarrow> run_state option" where
  "quiet_turn sp hp src day i s =
     do {
       n \<leftarrow> index_of (listpop s) i;
       let (retval, h, k) = step sp hp src (rng s) (listpop s ! n);
       let s1 = s\<lparr>listpop := (listpop s)[n := h], rng := k\<rparr>;
       s4 \<leftarrow> (if retval AND DO_ALARM \<noteq> 0
               then alarm_loop sp hp src i (meetingList (listpop s1 ! n)) s1 else Some s1);
       Some (tally day (listpop s4 ! n) s4)
     }"

fun quiet_agents_loop :: "simParams \<Rightarrow> humanParams \<Rightarrow> source \<Rightarrow> nat \<Rightarrow> int list \<Rightarrow> run_state \<Rightarrow> run_state option" where
  "quiet_agents_loop sp hp src day [] s = Some s"
| "quiet_agents_loop sp hp src day (i # is) s =
     do {
       s' \<leftarrow> quiet_turn sp hp src day i s;
       quiet_agents_loop sp hp src day is s'
     }"

fun quiet_days_loop :: "simParams \<Rightarrow> humanParams \<Rightarrow> source \<Rightarrow> nat list \<Rightarrow> run_state \<Rightarrow> run_state option" where
  "quiet_days_loop sp hp src [] s = Some s"
| "quiet_days_loop sp hp src (day # days) s =
     do {
       s' \<leftarrow> quiet_agents_loop sp hp src day (range_py (py_int (POP sp))) s;
       quiet_days_loop sp hp src days (day_end sp day s')
     }"

text \<open>
  No transmission and no contact recorded, agent by agent: the meeting list is the same
  and the agent is incubating only if it was.
\<close>

definition quiet_agent :: "human \<Rightarrow> human \<Rightarrow> bool" where
  "quiet_agent h h' = (meetingList h' = meetingList h \<and> (st h' = incub \<longrightarrow> st h = incub))"

definition quiet_pop :: "human list \<Rightarrow> human list \<Rightarrow> bool" where
  "quiet_pop pop pop' =
     (length pop' = length pop \<and> (\<forall>i < length pop. quiet_agent (pop ! i) (pop' ! i)))"


definition sickSim :: simParams where
  "sickSim = \<lparr>POP = 3, DAYS = 2, EFFICIENCY_REDUCTION = 1/10, DEFER_SWAB_DAYS = 2, DAY0_INFECTED = 3\<rparr>"

lemmas agent_defs = defaultSim_def defaultHP_def hp1_def DO_INFECT_def DO_ALARM_def
  infect_def incubend_def appAlarm_def quarantineEnd_def step_quarantine_def step_incub_def
  step_ill_def step_def human_init_def

section \<open>The steps of one agent\<close>

lemma step_quarantine_no_expiry:
  "safequarantinectr h \<noteq> 1 \<Longrightarrow>
   step_quarantine h = h\<lparr>safequarantinectr := (if 0 < safequarantinectr h then safequarantinectr h - 1 else safequarantinectr h)\<rparr>"
  by (simp add: step_quarantine_def Let_def)

lemma incubend_eq:
  "incubend sp hp src k h =
     (if hasApp h \<and> src (Suc k) < swabAvailabilityProbability hp \<and> DEFER_SWAB_DAYS sp = 0 then DO_ALARM else 0,
      h\<lparr>willdie := (src k < Pd hp),
        icounter := (if src k < Pd hp then Td hp else Tr hp),
        st := illquarant,
        defer_alarm := (if hasApp h \<and> src (Suc k) < swabAvailabilityProbability hp \<and> DEFER_SWAB_DAYS sp \<noteq> 0
                        then DEFER_SWAB_DAYS sp else defer_alarm h)\<rparr>,
      if hasApp h then Suc (Suc k) else Suc k)"
  by (simp add: incubend_def Let_def)

lemma step_incub_transition:
  assumes "st h = incub" "icounter h = 1"
  shows "step_incub sp hp src k h =
     (let risk = (if safequarantinectr h < 1
                  then (if riskcounter h + Pi hp > 1 then riskcounter h + Pi hp - 1 else riskcounter h + Pi hp)
                  else riskcounter h);
          r1 = (if safequarantinectr h < 1 \<and> riskcounter h + Pi hp > 1 then DO_INFECT else 0);
          h2 = h\<lparr>riskcounter := risk, icounter := 0\<rparr>
      in (r1 + fst (incubend sp hp src k h2), snd (incubend sp hp src k h2)))"
  using assms
  by (simp add: step_incub_def Let_def split: prod.splits)


lemma step_ill_agent:
  assumes "st h = illquarant" "safequarantinectr h \<noteq> 1"
  shows "step sp hp src k h =
     (if defer_alarm h - 1 = 0 then DO_ALARM else 0,
      h\<lparr>safequarantinectr := (if 0 < safequarantinectr h then safequarantinectr h - 1 else safequarantinectr h),
        icounter := icounter h - 1, defer_alarm := defer_alarm h - 1,
        st := (if icounter h - 1 = 0 then (if willdie h then dead else recovered) else illquarant)\<rparr>, k)"
  using assms
  by (simp add: step_def step_quarantine_no_expiry step_incub_def step_ill_def Let_def)

lemma step_transition:
  assumes "st h = incub" "icounter h = 1" "safequarantinectr h \<noteq> 1"
  shows "st (fst (snd (step sp hp src k h))) =
           (if illness_days hp src k - 1 = 0 then (if src k < Pd hp then dead else recovered) else illquarant)"
    and "icounter (fst (snd (step sp hp src k h))) = illness_days hp src k - 1"
    and "willdie (fst (snd (step sp hp src k h))) = (src k < Pd hp)"
    and "defer_alarm (fst (snd (step sp hp src k h))) =
           (if alarm_armed sp hp src k h then DEFER_SWAB_DAYS sp else defer_alarm h) - 1"
    and "safequarantinectr (fst (snd (step sp hp src k h))) =
           (if 0 < safequarantinectr h then safequarantinectr h - 1 else safequarantinectr h)"
    and "alarm_armed sp hp src k h \<Longrightarrow>
           (fst (step sp hp src k h) AND DO_ALARM \<noteq> 0) = (DEFER_SWAB_DAYS sp = 1)"
proof -
  let ?hq = "step_quarantine h"
  have q: "?hq = h\<lparr>safequarantinectr := (if 0 < safequarantinectr h then safequarantinectr h - 1 else safequarantinectr h)\<rparr>"
    using assms(3) by (rule step_quarantine_no_expiry)
  have "st ?hq = incub" "icounter ?hq = 1"
    using assms(1,2) by (simp_all add: q)
  note si = step_incub_transition [OF this, of sp hp src k]
  have f: "safequarantinectr ?hq = (if 0 < safequarantinectr h then safequarantinectr h - 1 else safequarantinectr h)"
    "defer_alarm ?hq = defer_alarm h" "hasApp ?hq = hasApp h"
    by (simp_all add: q)
  show "st (fst (snd (step sp hp src k h))) =
           (if illness_days hp src k - 1 = 0 then (if src k < Pd hp then dead else recovered) else illquarant)"
    by (simp add: step_def si incubend_eq step_ill_def Let_def illness_days_def split: prod.splits)
  show "icounter (fst (snd (step sp hp src k h))) = illness_days hp src k - 1"
    by (simp add: step_def si incubend_eq step_ill_def Let_def illness_days_def split: prod.splits)
  show "willdie (fst (snd (step sp hp src k h))) = (src k < Pd hp)"
    by (simp add: step_def si incubend_eq step_ill_def Let_def split: prod.splits)
  show "defer_alarm (fst (snd (step sp hp src k h))) =
           (if alarm_armed sp hp src k h then DEFER_SWAB_DAYS sp else defer_alarm h) - 1"
    by (simp add: step_def si incubend_eq step_ill_def Let_def alarm_armed_def f split: prod.splits)
  show "safequarantinectr (fst (snd (step sp hp src k h))) =
           (if 0 < safequarantinectr h then safequarantinectr h - 1 else safequarantinectr h)"
    by (simp add: step_def si incubend_eq step_ill_def Let_def f split: prod.splits)
  show "(fst (step sp hp src k h) AND DO_ALARM \<noteq> 0) = (DEFER_SWAB_DAYS sp = 1)"
    if "alarm_armed sp hp src k h"
    using that
    by (simp add: step_def si incubend_eq step_ill_def Let_def alarm_armed_def f DO_ALARM_def DO_INFECT_def split: prod.splits)
qed


lemma after_steps_first:
  "after_steps sp hp src (Suc n) (h, k) = after_steps sp hp src n (snd (step sp hp src k h))"
  by (induction n) (simp_all add: Let_def split: prod.splits)

lemma ill_run:
  assumes "st h = illquarant"
    and "safequarantinectr h \<le> 0 \<or> int m < safequarantinectr h"
    and "int m < icounter h"
  shows "snd (after_steps sp hp src m (h, k)) = k
       \<and> st (fst (after_steps sp hp src m (h, k))) = illquarant
       \<and> icounter (fst (after_steps sp hp src m (h, k))) = icounter h - int m
       \<and> defer_alarm (fst (after_steps sp hp src m (h, k))) = defer_alarm h - int m
       \<and> willdie (fst (after_steps sp hp src m (h, k))) = willdie h
       \<and> safequarantinectr (fst (after_steps sp hp src m (h, k))) =
           (if 0 < safequarantinectr h then safequarantinectr h - int m else safequarantinectr h)"
  using assms(2,3)
proof (induction m)
  case 0
  show ?case using assms(1) by simp
next
  case (Suc m)
  obtain h' k' where hk: "after_steps sp hp src m (h, k) = (h', k')"
    by (cases "after_steps sp hp src m (h, k)")
  from Suc.prems have pre: "safequarantinectr h \<le> 0 \<or> int m < safequarantinectr h" "int m < icounter h"
    by auto
  from Suc.IH [OF pre] hk
  have ih: "k' = k" "st h' = illquarant" "icounter h' = icounter h - int m"
    "defer_alarm h' = defer_alarm h - int m" "willdie h' = willdie h"
    "safequarantinectr h' = (if 0 < safequarantinectr h then safequarantinectr h - int m else safequarantinectr h)"
    by simp_all
  have ne: "safequarantinectr h' \<noteq> 1"
    using Suc.prems(1) ih(6) by (auto split: if_splits)
  have ic: "icounter h' - 1 \<noteq> 0"
    using Suc.prems(2) ih(3) by simp
  show ?case
    using ih ic Suc.prems(1)
    by (auto simp add: hk step_ill_agent [OF ih(2) ne])
qed

lemma ill_last_step:
  assumes "st h = illquarant" "icounter h = 1" "safequarantinectr h \<noteq> 1"
  shows "st (fst (snd (step sp hp src k h))) = (if willdie h then dead else recovered)"
    and "icounter (fst (snd (step sp hp src k h))) = 0"
    and "defer_alarm (fst (snd (step sp hp src k h))) = defer_alarm h - 1"
  using assms(2) by (simp_all add: step_ill_agent [OF assms(1,3)])

lemma transition_run:
  assumes inc: "st h = incub" "icounter h = 1"
    and q: "safequarantinectr h \<le> 0 \<or> int (Suc m) < safequarantinectr h"
    and T: "int (Suc m) \<le> illness_days hp src k"
  shows "icounter (fst (after_steps sp hp src (Suc m) (h, k))) = illness_days hp src k - int (Suc m)
       \<and> st (fst (after_steps sp hp src (Suc m) (h, k))) =
           (if int (Suc m) < illness_days hp src k then illquarant
            else if src k < Pd hp then dead else recovered)
       \<and> (alarm_armed sp hp src k h \<longrightarrow>
           defer_alarm (fst (after_steps sp hp src (Suc m) (h, k))) = DEFER_SWAB_DAYS sp - int (Suc m))
       \<and> (alarm_armed sp hp src k h \<longrightarrow>
           (step_retval sp hp src m (h, k) AND DO_ALARM \<noteq> 0) = (DEFER_SWAB_DAYS sp = int (Suc m)))"
proof -
  obtain r h1 k1 where s1: "step sp hp src k h = (r, h1, k1)"
    by (cases "step sp hp src k h")
  have q1: "safequarantinectr h \<noteq> 1"
    using q by auto
  note tr = step_transition [OF inc q1, of sp hp src k, unfolded s1, simplified]
  have first: "after_steps sp hp src (Suc n) (h, k) = after_steps sp hp src n (h1, k1)" for n
    by (simp only: after_steps_first s1 snd_conv)
  have run: "st (fst (after_steps sp hp src n (h1, k1))) = illquarant
       \<and> icounter (fst (after_steps sp hp src n (h1, k1))) = illness_days hp src k - 1 - int n
       \<and> defer_alarm (fst (after_steps sp hp src n (h1, k1))) = defer_alarm h1 - int n
       \<and> willdie (fst (after_steps sp hp src n (h1, k1))) = (src k < Pd hp)
       \<and> safequarantinectr (fst (after_steps sp hp src n (h1, k1))) \<noteq> 1"
    if n: "int n < illness_days hp src k - 1" "n < m" for n
  proof -
    have a: "st h1 = illquarant" using n(1) tr(1) by (auto split: if_splits)
    have b: "safequarantinectr h1 \<le> 0 \<or> int n < safequarantinectr h1"
      using q n(2) tr(5) by (auto split: if_splits)
    have c: "int n < icounter h1" using n(1) tr(2) by simp
    from ill_run [OF a b c, of sp hp src k1] show ?thesis
      using tr(2,3,5) q n(2) by (auto split: if_splits)
  qed
  have run_m: "st (fst (after_steps sp hp src m (h1, k1))) = illquarant
       \<and> icounter (fst (after_steps sp hp src m (h1, k1))) = illness_days hp src k - 1 - int m
       \<and> defer_alarm (fst (after_steps sp hp src m (h1, k1))) = defer_alarm h1 - int m"
    if n: "int m < illness_days hp src k - 1"
  proof -
    have a: "st h1 = illquarant" using n tr(1) by (auto split: if_splits)
    have b: "safequarantinectr h1 \<le> 0 \<or> int m < safequarantinectr h1"
      using q tr(5) by (auto split: if_splits)
    have c: "int m < icounter h1" using n tr(2) by simp
    from ill_run [OF a b c, of sp hp src k1] show ?thesis
      using tr(2) by simp
  qed
  have state: "icounter (fst (after_steps sp hp src m (h1, k1))) = illness_days hp src k - int (Suc m)
       \<and> st (fst (after_steps sp hp src m (h1, k1))) =
           (if int (Suc m) < illness_days hp src k then illquarant
            else if src k < Pd hp then dead else recovered)
       \<and> defer_alarm (fst (after_steps sp hp src m (h1, k1))) = defer_alarm h1 - int m"
  proof (cases "int m < illness_days hp src k - 1")
    case True
    from run_m [OF True] True show ?thesis by simp
  next
    case False
    with T have e: "int m = illness_days hp src k - 1" by simp
    show ?thesis
    proof (cases m)
      case 0
      with e tr(1,2) show ?thesis by simp
    next
      case (Suc m')
      have lt: "int m' < illness_days hp src k - 1" "m' < m" using e Suc by simp_all
      obtain h2 k2 where hk2: "after_steps sp hp src m' (h1, k1) = (h2, k2)"
        by (cases "after_steps sp hp src m' (h1, k1)")
      from run [OF lt] hk2 e Suc have i2: "st h2 = illquarant" "icounter h2 = 1"
        "safequarantinectr h2 \<noteq> 1" "willdie h2 = (src k < Pd hp)"
        "defer_alarm h2 = defer_alarm h1 - int m'"
        by simp_all
      from ill_last_step [OF i2(1,2,3), of sp hp src k2] e Suc i2(4,5)
      show ?thesis by (simp add: hk2)
    qed
  qed
  have retval: "(step_retval sp hp src m (h, k) AND DO_ALARM \<noteq> 0) = (DEFER_SWAB_DAYS sp = int (Suc m))"
    if armed: "alarm_armed sp hp src k h"
  proof (cases m)
    case 0
    with tr(6) [OF armed] show ?thesis by (simp add: step_retval_def s1)
  next
    case (Suc m')
    have lt: "int m' < illness_days hp src k - 1" "m' < m" using T Suc by simp_all
    obtain h2 k2 where hk2: "after_steps sp hp src m' (h1, k1) = (h2, k2)"
      by (cases "after_steps sp hp src m' (h1, k1)")
    from run [OF lt] hk2 have i2: "st h2 = illquarant" "safequarantinectr h2 \<noteq> 1"
      "defer_alarm h2 = defer_alarm h1 - int m'"
      by simp_all
    have "step_retval sp hp src m (h, k) = fst (step sp hp src k2 h2)"
      unfolding step_retval_def Suc first by (simp add: hk2)
    also have "\<dots> = (if defer_alarm h2 - 1 = 0 then DO_ALARM else 0)"
      by (simp add: step_ill_agent [OF i2(1,2)])
    finally show ?thesis
      using i2(3) tr(4) armed Suc by (auto simp add: DO_ALARM_def)
  qed
  show ?thesis
    unfolding first using state retval tr(4) by simp
qed


section \<open>Properties of the agent\<close>

text \<open>The agents of the examples are reached from a new agent.\<close>

lemma relapsed_reached:
  "calls defaultSim hp1 half ([Infect, Step, AppAlarm] @ replicate 10 Step) (human_init hp1 half 0 0)
     = (relapsed, 4)"
  by code_simp

lemma both_flags_reached:
  "calls defaultSim hp1 src3
     ([Infect, Step, Step, Step, AppAlarm] @ replicate 10 Step
      @ [AppAlarm, Step, Step, Infect] @ replicate 8 Step
      @ [Infect] @ replicate 6 Step) (human_init hp1 src3 0 0)
     = (both_flags, 7)"
  by code_simp

lemma ill_again_reached:
  "st (fst (calls defaultSim hp1 src7 ([Infect, Step, AppAlarm] @ replicate 6 Step) (human_init hp1 src7 0 0))) = illquarant"
  "willdie (fst (calls defaultSim hp1 src7 ([Infect, Step, AppAlarm] @ replicate 6 Step) (human_init hp1 src7 0 0))) = True"
  "calls defaultSim hp1 src7 ([Infect, Step, AppAlarm] @ replicate 10 Step @ [Infect] @ replicate 6 Step)
     (human_init hp1 src7 0 0) = (ill_again, 4)"
  by code_simp+

lemma quarantined_incub_reached:
  "calls defaultSim hp1 half ([AppAlarm, Step, Step, Infect] @ replicate 6 Step) (human_init hp1 half 0 0)
     = (quarantined_incub, 2)"
  by code_simp

text \<open>
  C1 (the code at the failing input). A new agent with the app is infected and dies on
  its 22nd step. It then receives an alarm and complies, which arms the quarantine
  counter of a dead agent; ten steps later \<^verbatim>\<open>quarantineEnd\<close> sets its status to
  \<open>healthy\<close>, and \<^verbatim>\<open>infect\<close> succeeds on it again. So \<open>dead\<close> is not absorbing in
  the code.
\<close>

theorem dead_agent_returns_to_healthy:
  "st (fst (calls defaultSim hp1 src1 ([Infect] @ replicate 22 Step) (human_init hp1 src1 0 0))) = dead
   \<and> st (fst (calls defaultSim hp1 src1 ([Infect] @ replicate 22 Step @ [AppAlarm] @ replicate 10 Step)
             (human_init hp1 src1 0 0))) = healthy
   \<and> fst (infect hp1 (fst (calls defaultSim hp1 src1 ([Infect] @ replicate 22 Step @ [AppAlarm] @ replicate 10 Step)
             (human_init hp1 src1 0 0)))) = 1"
  by code_simp

text \<open>
  C2, as stated, fails: \<^verbatim>\<open>infect\<close> does not touch \<^verbatim>\<open>riskcounter\<close>. The agent
  \<open>relapsed\<close> is healthy with a risk counter of 3/7, and after \<^verbatim>\<open>infect\<close> its risk
  counter is not 0.
\<close>

theorem infect_resets_riskcounter_counterexample:
  "st relapsed = healthy \<and> riskcounter (snd (infect hp1 relapsed)) \<noteq> 0"
  by (simp add: relapsed_def infect_def)

text \<open>
  C2, amended. \<^verbatim>\<open>infect\<close> on a healthy agent returns 1, sets the status to \<open>incub\<close>
  and \<^verbatim>\<open>icounter\<close> to \<open>Ti\<close>, and leaves every other field, \<^verbatim>\<open>riskcounter\<close> among
  them, as it was.
\<close>

theorem infect_healthy:
  "st h = healthy \<Longrightarrow>
     infect hp h = (1, h\<lparr>st := incub, icounter := Ti hp\<rparr>)
     \<and> st (snd (infect hp h)) = incub
     \<and> icounter (snd (infect hp h)) = Ti hp
     \<and> riskcounter (snd (infect hp h)) = riskcounter h"
  by (simp add: infect_def)

text \<open>The amended C2 at the agent \<open>relapsed\<close>.\<close>

theorem infect_healthy_witness:
  "st relapsed = healthy
     \<and> st (snd (infect hp1 relapsed)) = incub
     \<and> icounter (snd (infect hp1 relapsed)) = 7
     \<and> riskcounter (snd (infect hp1 relapsed)) = 3/7"
  using infect_healthy [of relapsed hp1]
  by (simp add: relapsed_def hp1_def defaultHP_def)

text \<open>
  C3 (the code at the failing input). On the agent \<open>both_flags\<close> the block of the
  incubating agent raises \<open>DO_INFECT\<close> (the risk counter passes 1 and is decremented),
  the incubation ends in the same call, and the block of the ill agent then assigns
  \<open>DO_ALARM\<close> to \<^verbatim>\<open>retval\<close>: the value returned is \<open>DO_ALARM\<close> alone, the flag
  \<open>DO_INFECT\<close> is lost.
\<close>

theorem step_loses_infect_flag:
  "fst (step_incub defaultSim hp1 src3 7 (step_quarantine both_flags)) = DO_INFECT
   \<and> riskcounter (fst (snd (step defaultSim hp1 src3 7 both_flags))) = riskcounter both_flags + Pi hp1 - 1
   \<and> fst (step defaultSim hp1 src3 7 both_flags) = DO_ALARM
   \<and> fst (step defaultSim hp1 src3 7 both_flags) AND DO_INFECT = 0"
  by (simp add: both_flags_def src3_def agent_defs Let_def)

text \<open>
  C4. When a call of \<^verbatim>\<open>step\<close> decrements a positive quarantine counter to 0, the
  status after the quarantine block is \<open>healthy\<close>, whatever it was, and so is the
  status at the end of the call; the counter is 0.
\<close>

theorem quarantine_end_sets_healthy:
  "0 < safequarantinectr h \<Longrightarrow> safequarantinectr h - 1 = 0 \<Longrightarrow>
     st (step_quarantine h) = healthy
     \<and> st (fst (snd (step sp hp src k h))) = healthy
     \<and> safequarantinectr (fst (snd (step sp hp src k h))) = 0"
  by (simp add: step_def step_quarantine_def quarantineEnd_def step_incub_def step_ill_def Let_def)

text \<open>C4 at a dead agent whose quarantine counter is 1.\<close>

theorem quarantine_end_sets_healthy_witness:
  "st (step_quarantine (relapsed\<lparr>st := dead, safequarantinectr := 1\<rparr>)) = healthy
     \<and> st (fst (snd (step defaultSim hp1 half 0 (relapsed\<lparr>st := dead, safequarantinectr := 1\<rparr>)))) = healthy
     \<and> safequarantinectr (fst (snd (step defaultSim hp1 half 0 (relapsed\<lparr>st := dead, safequarantinectr := 1\<rparr>)))) = 0"
  using quarantine_end_sets_healthy [of "relapsed\<lparr>st := dead, safequarantinectr := 1\<rparr>" defaultSim hp1 half 0]
  by (simp add: relapsed_def)

text \<open>
  C7, as stated, fails. The agent \<open>ill_again\<close> has been ill once, with \<^verbatim>\<open>willdie\<close>
  sampled \<open>True\<close>, was returned to \<open>healthy\<close> by the end of its quarantine and infected
  again (lemma \<open>ill_again_reached\<close>); the step that ends its second incubation samples
  \<^verbatim>\<open>willdie\<close> again, this time \<open>False\<close>.
\<close>

theorem willdie_sampled_again_counterexample:
  "willdie ill_again = True \<and> willdie (fst (snd (step defaultSim hp1 src7 4 ill_again))) = False"
  by (simp add: ill_again_def src7_def agent_defs Let_def)

text \<open>What one call of \<^verbatim>\<open>step\<close> does to \<^verbatim>\<open>willdie\<close>.\<close>

lemma step_willdie:
  "willdie (fst (snd (step sp hp src k h))) =
     (if st (step_quarantine h) = incub \<and> icounter h - 1 = 0 then src k < Pd hp else willdie h)"
proof -
  have q: "willdie (step_quarantine h) = willdie h" "icounter (step_quarantine h) = icounter h"
    by (simp_all add: step_quarantine_def quarantineEnd_def Let_def)
  show ?thesis
  proof (cases "st (step_quarantine h) = incub \<and> icounter h - 1 = 0")
    case True
    then have "st (step_quarantine h) = incub" "icounter (step_quarantine h) = 1"
      by (simp_all add: q)
    from step_incub_transition [OF this, of sp hp src k] True show ?thesis
      by (simp add: step_def incubend_eq step_ill_def Let_def split: prod.splits)
  next
    case False
    then show ?thesis
      using q
      by (auto simp add: step_def step_incub_def step_ill_def Let_def split: prod.splits if_splits)
  qed
qed

text \<open>
  C7, amended. \<^verbatim>\<open>willdie\<close> is written only where an incubation ends: a call of
  \<^verbatim>\<open>step\<close> sets it to the result of one draw when the agent is incubating after the
  quarantine block and \<^verbatim>\<open>icounter\<close> reaches 0, and leaves it unchanged otherwise;
  \<^verbatim>\<open>infect\<close>, \<^verbatim>\<open>appAlarm\<close>, \<^verbatim>\<open>quarantineEnd\<close> and \<^verbatim>\<open>addMet\<close> never change it.
\<close>

theorem willdie_written_only_at_transition:
  "willdie (snd (infect hp h)) = willdie h
   \<and> willdie (fst (appAlarm sp hp src k p h)) = willdie h
   \<and> willdie (quarantineEnd h) = willdie h
   \<and> willdie (addMet g h) = willdie h
   \<and> willdie (fst (snd (step sp hp src k h))) =
       (if st (step_quarantine h) = incub \<and> icounter h - 1 = 0 then src k < Pd hp else willdie h)"
  by (simp add: step_willdie infect_def appAlarm_def quarantineEnd_def addMet_def)

text \<open>The amended C7 at the agents \<open>ill_again\<close> and \<open>relapsed\<close>.\<close>

theorem willdie_written_only_at_transition_witness:
  "willdie (fst (snd (step defaultSim hp1 src7 4 ill_again))) = False
   \<and> willdie (fst (snd (step defaultSim hp1 src7 4 relapsed))) = willdie relapsed
   \<and> willdie (snd (infect hp1 relapsed)) = willdie relapsed"
  using willdie_written_only_at_transition [of hp1 relapsed defaultSim src7 4 0 0]
    willdie_written_only_at_transition [of hp1 ill_again defaultSim src7 4 0 0]
  by (simp add: ill_again_def relapsed_def src7_def hp1_def defaultHP_def step_quarantine_def)

text \<open>
  C10, as stated, fails for an agent in quarantine. The agent \<open>quarantined_incub\<close>
  ends its incubation with a quarantine counter of 2, the alarm is armed with
  \<open>DEFER_SWAB_DAYS = 2\<close> and the illness is to last 21 days. In the next call the
  quarantine ends, the status is \<open>healthy\<close>, the block of the ill agent is skipped: no
  alarm is raised one step after the transition, and the agent has left \<open>illquarant\<close> on
  the second step.
\<close>

theorem alarm_after_transition_counterexample:
  "st quarantined_incub = incub \<and> icounter quarantined_incub = 1
   \<and> alarm_armed defaultSim hp1 half 2 quarantined_incub
   \<and> DEFER_SWAB_DAYS defaultSim = 2
   \<and> defer_alarm (fst (after_steps defaultSim hp1 half 1 (quarantined_incub, 2))) = 1
   \<and> step_retval defaultSim hp1 half 1 (quarantined_incub, 2) AND DO_ALARM = 0
   \<and> st (fst (after_steps defaultSim hp1 half 2 (quarantined_incub, 2))) = healthy
   \<and> illness_days hp1 half 2 = 21"
  by (simp add: quarantined_incub_def half_def alarm_armed_def illness_days_def step_retval_def
      agent_defs Let_def eval_nat_numeral)

text \<open>
  C10, amended. Let an incubating agent have \<^verbatim>\<open>icounter = 1\<close>, and let its quarantine
  counter not reach 0 during the next \<open>n\<close> calls of \<^verbatim>\<open>step\<close> (it is not positive, or
  above \<open>n\<close>), where \<open>n\<close> is from 1 to the length \<open>T\<close> of the illness (\<open>Td\<close> or \<open>Tr\<close>).
  Counting the call that ends the incubation as the first: after \<open>n\<close> calls
  \<^verbatim>\<open>icounter\<close> is \<open>T - n\<close> and an armed \<^verbatim>\<open>defer_alarm\<close> is \<open>DEFER_SWAB_DAYS - n\<close>, so both
  are decremented in the first call already; the agent is \<open>illquarant\<close> after fewer than
  \<open>T\<close> calls and \<open>dead\<close> or \<open>recovered\<close> after the call number \<open>T\<close>; and when the alarm
  is armed, the call number \<open>n\<close> returns the flag \<open>DO_ALARM\<close> exactly when
  \<open>n = DEFER_SWAB_DAYS\<close>.
\<close>

theorem transition_step_timing:
  assumes "st h = incub" "icounter h = 1"
    and "safequarantinectr h \<le> 0 \<or> int n < safequarantinectr h"
    and "0 < n" "int n \<le> illness_days hp src k"
  shows "icounter (fst (after_steps sp hp src n (h, k))) = illness_days hp src k - int n
       \<and> st (fst (after_steps sp hp src n (h, k))) =
           (if int n < illness_days hp src k then illquarant
            else if src k < Pd hp then dead else recovered)
       \<and> (alarm_armed sp hp src k h \<longrightarrow>
           defer_alarm (fst (after_steps sp hp src n (h, k))) = DEFER_SWAB_DAYS sp - int n)
       \<and> (alarm_armed sp hp src k h \<longrightarrow>
           (step_retval sp hp src (n - 1) (h, k) AND DO_ALARM \<noteq> 0) = (DEFER_SWAB_DAYS sp = int n))"
proof -
  from assms(4) obtain m where n: "n = Suc m"
    by (cases n) auto
  from transition_run [OF assms(1,2) assms(3) [unfolded n] assms(5) [unfolded n], of sp]
  show ?thesis
    unfolding n by simp
qed

text \<open>
  The amended C10 at an agent out of quarantine, with the parameters of the source: the
  alarm is returned by the second call, the agent recovers in the 21st.
\<close>

theorem transition_step_timing_witness:
  "st free_incub = incub \<and> icounter free_incub = 1 \<and> safequarantinectr free_incub \<le> 0
   \<and> illness_days hp1 half 2 = 21 \<and> alarm_armed defaultSim hp1 half 2 free_incub
   \<and> icounter (fst (after_steps defaultSim hp1 half 2 (free_incub, 2))) = 19
   \<and> st (fst (after_steps defaultSim hp1 half 2 (free_incub, 2))) = illquarant
   \<and> defer_alarm (fst (after_steps defaultSim hp1 half 2 (free_incub, 2))) = 0
   \<and> step_retval defaultSim hp1 half 1 (free_incub, 2) AND DO_ALARM \<noteq> 0
   \<and> st (fst (after_steps defaultSim hp1 half 21 (free_incub, 2))) = recovered"
proof -
  have h: "st free_incub = incub" "icounter free_incub = 1"
    "safequarantinectr free_incub \<le> 0 \<or> int n < safequarantinectr free_incub" for n
    by (simp_all add: free_incub_def)
  have T: "illness_days hp1 half 2 = 21"
    by (simp add: illness_days_def half_def hp1_def defaultHP_def)
  have a: "alarm_armed defaultSim hp1 half 2 free_incub"
    by (simp add: alarm_armed_def free_incub_def half_def hp1_def defaultHP_def defaultSim_def)
  have d: "DEFER_SWAB_DAYS defaultSim = 2" "half 2 < Pd hp1 \<longleftrightarrow> False"
    by (simp_all add: defaultSim_def half_def hp1_def defaultHP_def)
  from transition_step_timing [OF h(1,2) h(3) [of 2], of hp1 half 2 defaultSim]
    transition_step_timing [OF h(1,2) h(3) [of 21], of hp1 half 2 defaultSim]
  show ?thesis
    using h(1,2) a by (simp add: T d free_incub_def)
qed


text \<open>
  C6. For every agent whose status is not \<open>healthy\<close>, \<open>infect\<close> returns 0 and leaves the
  whole state of the agent as it was; the result is 1 exactly when the agent was
  \<open>healthy\<close>.
\<close>

theorem infect_not_healthy_noop:
  "(st h \<noteq> healthy \<longrightarrow> infect hp h = (0, h)) \<and> (fst (infect hp h) = 1 \<longleftrightarrow> st h = healthy)"
  by (simp add: infect_def)

text \<open>C6 at a recovered agent and at a healthy one.\<close>

theorem infect_not_healthy_noop_witness:
  "infect defaultHP \<lparr>st = recovered, hid = 4, icounter = 0, riskcounter = 2/7, willdie = False,
       safequarantinectr = 3, hasApp = True, meetingList = [1, 2], defer_alarm = - 5\<rparr>
     = (0, \<lparr>st = recovered, hid = 4, icounter = 0, riskcounter = 2/7, willdie = False,
       safequarantinectr = 3, hasApp = True, meetingList = [1, 2], defer_alarm = - 5\<rparr>)
   \<and> fst (infect defaultHP \<lparr>st = healthy, hid = 4, icounter = 0, riskcounter = 2/7, willdie = False,
       safequarantinectr = 3, hasApp = True, meetingList = [1, 2], defer_alarm = - 5\<rparr>) = 1"
  using infect_not_healthy_noop [of "\<lparr>st = recovered, hid = 4, icounter = 0, riskcounter = 2/7, willdie = False,
       safequarantinectr = 3, hasApp = True, meetingList = [1, 2], defer_alarm = - 5\<rparr>" defaultHP]
    infect_not_healthy_noop [of "\<lparr>st = healthy, hid = 4, icounter = 0, riskcounter = 2/7, willdie = False,
       safequarantinectr = 3, hasApp = True, meetingList = [1, 2], defer_alarm = - 5\<rparr>" defaultHP]
  by simp


section \<open>The loops of the engine\<close>

text \<open>
  The two while loops are unfolded by the lemmas \<open>infect_loop_stop\<close>, \<open>infect_loop_go\<close>,
  \<open>meet_loop_stop\<close> and \<open>meet_loop_go\<close>, not by the simplifier.
\<close>

declare infect_loop.simps [simp del] meet_loop.simps [simp del]

lemma frame_refl: "frame s s"
  by (simp add: frame_def)

lemma frame_trans: "frame s s1 \<Longrightarrow> frame s1 s2 \<Longrightarrow> frame s s2"
  by (simp add: frame_def)

lemma infect_loop_stop:
  "\<not> (ok = 0 \<and> d < py_int (POP sp) \<and> \<not> skipContagi s) \<Longrightarrow> infect_loop sp hp src ok d s = Some s"
  by (subst infect_loop.simps) (rule if_not_P)

lemma infect_loop_go:
  "ok = 0 \<and> d < py_int (POP sp) \<and> \<not> skipContagi s \<Longrightarrow>
   infect_loop sp hp src ok d s =
     (case index_of (listpop s) \<lfloor>src (rng s) * POP sp\<rfloor> of
        None \<Rightarrow> None
      | Some n \<Rightarrow>
          infect_loop sp hp src (fst (infect hp (listpop s ! n))) (d + 1)
            (s\<lparr>listpop := (listpop s)[n := snd (infect hp (listpop s ! n))], rng := Suc (rng s)\<rparr>))"
  by (subst infect_loop.simps) (simp add: Let_def)

lemma meet_loop_stop:
  "\<not> (t > 0 \<and> of_int d < (1/2) * (of_int (py_int (POP sp)) :: rat) \<and> \<not> skipContagi s) \<Longrightarrow>
   meet_loop sp hp src i t d s = Some s"
  by (subst meet_loop.simps) (rule if_not_P)

lemma meet_loop_go:
  "t > 0 \<and> of_int d < (1/2) * (of_int (py_int (POP sp)) :: rat) \<and> \<not> skipContagi s \<Longrightarrow>
   meet_loop sp hp src i t d s =
     (case index_of (listpop s) \<lfloor>src (rng s) * POP sp\<rfloor> of
        None \<Rightarrow> None
      | Some n \<Rightarrow>
          if isMeetable (listpop s ! n) then
            (case index_of (listpop s) i of
               None \<Rightarrow> None
             | Some m \<Rightarrow>
                 meet_loop sp hp src i (t - 1) (d + 1)
                   (s\<lparr>rng := Suc (rng s), listpop := (listpop s)[m := addMet (getId (listpop s ! n)) (listpop s ! m)]\<rparr>))
          else meet_loop sp hp src i t (d + 1) (s\<lparr>rng := Suc (rng s)\<rparr>))"
  by (subst meet_loop.simps) (simp add: Let_def split: option.splits)

lemma infect_loop_frame:
  "infect_loop sp hp src ok d s = Some s' \<Longrightarrow> frame s s'"
proof (induction sp hp src ok d s rule: infect_loop.induct)
  case (1 sp hp src ok d s)
  show ?case
  proof (cases "ok = 0 \<and> d < py_int (POP sp) \<and> \<not> skipContagi s")
    case False
    from "1.prems" show ?thesis
      by (simp add: infect_loop_stop [OF False] frame_def)
  next
    case True
    let ?g = "\<lfloor>src (rng s) * POP sp\<rfloor>"
    from "1.prems" obtain n where n: "index_of (listpop s) ?g = Some n"
      unfolding infect_loop_go [OF True] by (auto split: option.splits)
    let ?s1 = "s\<lparr>listpop := (listpop s)[n := snd (infect hp (listpop s ! n))], rng := Suc (rng s)\<rparr>"
    from "1.prems" n
    have "infect_loop sp hp src (fst (infect hp (listpop s ! n))) (d + 1) ?s1 = Some s'"
      unfolding infect_loop_go [OF True] by simp
    from "1.IH" [OF True refl n this] have "frame ?s1 s'" .
    then show ?thesis by (simp add: frame_def)
  qed
qed

lemma meet_loop_frame:
  "meet_loop sp hp src i t d s = Some s' \<Longrightarrow> frame s s'"
proof (induction sp hp src i t d s rule: meet_loop.induct)
  case (1 sp hp src i t d s)
  let ?c = "t > 0 \<and> of_int d < (1/2) * (of_int (py_int (POP sp)) :: rat) \<and> \<not> skipContagi s"
  show ?case
  proof (cases ?c)
    case False
    from "1.prems" show ?thesis
      by (simp add: meet_loop_stop [OF False] frame_def)
  next
    case True
    let ?g = "\<lfloor>src (rng s) * POP sp\<rfloor>"
    let ?s1 = "s\<lparr>rng := Suc (rng s)\<rparr>"
    from "1.prems" obtain n where n: "index_of (listpop s) ?g = Some n"
      unfolding meet_loop_go [OF True] by (auto split: option.splits)
    then have n1: "index_of (listpop ?s1) ?g = Some n" by simp
    show ?thesis
    proof (cases "isMeetable (listpop s ! n)")
      case meet: True
      from "1.prems" n meet obtain m where m: "index_of (listpop s) i = Some m"
        unfolding meet_loop_go [OF True] by (auto split: option.splits)
      let ?s2 = "?s1\<lparr>listpop := (listpop ?s1)[m := addMet (getId (listpop ?s1 ! n)) (listpop ?s1 ! m)]\<rparr>"
      from "1.prems" n meet m
      have "meet_loop sp hp src i (t - 1) (d + 1) ?s2 = Some s'"
        unfolding meet_loop_go [OF True] by simp
      moreover have "isMeetable (listpop ?s1 ! n)" "index_of (listpop ?s1) i = Some m"
        using meet m by simp_all
      ultimately have "frame ?s2 s'"
        using "1.IH"(1) [OF True refl refl n1] by blast
      then show ?thesis by (simp add: frame_def)
    next
      case nomeet: False
      from "1.prems" n nomeet
      have "meet_loop sp hp src i t (d + 1) ?s1 = Some s'"
        unfolding meet_loop_go [OF True] by simp
      moreover have "\<not> isMeetable (listpop ?s1 ! n)"
        using nomeet by simp
      ultimately have "frame ?s1 s'"
        using "1.IH"(2) [OF True refl refl n1] by blast
      then show ?thesis by (simp add: frame_def)
    qed
  qed
qed

lemma alarm_loop_frame:
  "alarm_loop sp hp src i js s = Some s' \<Longrightarrow> frame s s'"
proof (induction js arbitrary: s)
  case Nil
  then show ?case by (simp add: frame_def)
next
  case (Cons j js)
  from Cons.prems obtain n m where nm: "index_of (listpop s) j = Some n" "index_of (listpop s) i = Some m"
    by (auto split: Option.bind_splits)
  obtain h k where hk: "appAlarm sp hp src (rng s) (getId (listpop s ! m)) (listpop s ! n) = (h, k)"
    by (cases "appAlarm sp hp src (rng s) (getId (listpop s ! m)) (listpop s ! n)")
  from Cons.prems nm hk
  have "alarm_loop sp hp src i js (s\<lparr>listpop := (listpop s)[n := h], rng := k\<rparr>) = Some s'"
    by simp
  from Cons.IH [OF this] show ?case by (simp add: frame_def)
qed





lemma agent_turn_frame:
  assumes "agent_turn sp hp src day i s = Some s'"
  obtains s4 h where "frame s s4" "s' = tally day h s4"
proof -
  from assms obtain n where n: "index_of (listpop s) i = Some n"
    by (auto simp add: agent_turn_def split: Option.bind_splits)
  obtain retval h k where stp: "step sp hp src (rng s) (listpop s ! n) = (retval, h, k)"
    by (cases "step sp hp src (rng s) (listpop s ! n)")
  let ?s1 = "s\<lparr>listpop := (listpop s)[n := h], rng := k\<rparr>"
  from assms n stp obtain s2 s3 s4 where
    s2: "(if retval AND DO_INFECT \<noteq> 0 then infect_loop sp hp src 0 0 ?s1 else Some ?s1) = Some s2"
    and s3: "(if getStatus (listpop s2 ! n) = incub then meet_loop sp hp src i (meeting hp) 0 s2 else Some s2) = Some s3"
    and s4: "(if retval AND DO_ALARM \<noteq> 0 then alarm_loop sp hp src i (meetingList (listpop s3 ! n)) s3 else Some s3) = Some s4"
    and s': "s' = tally day (listpop s4 ! n) s4"
    by (auto simp add: agent_turn_def Let_def split: Option.bind_splits)
  have "frame s ?s1" by (simp add: frame_def)
  moreover have "frame ?s1 s2"
    using s2 by (auto split: if_splits intro: infect_loop_frame frame_refl)
  moreover have "frame s2 s3"
    using s3 by (auto split: if_splits intro: meet_loop_frame frame_refl)
  moreover have "frame s3 s4"
    using s4 by (auto split: if_splits intro: alarm_loop_frame frame_refl)
  ultimately have "frame s s4"
    by (blast intro: frame_trans)
  from that [OF this s'] show thesis .
qed



lemma day_end_total:
  "counts_len (day_end sp day s) n = counts_len s n"
  "day_total (day_end sp day s) d = day_total s d"
  "listpop (day_end sp day s) = listpop s"
  by (simp_all add: day_end_def Let_def counts_len_def day_total_def)







section \<open>Properties of the engine\<close>





text \<open>With the flag \<^verbatim>\<open>skipContagi\<close> set, the engine is the engine without sampling.\<close>

lemma agent_turn_quiet:
  assumes "skipContagi s"
  shows "agent_turn sp hp src day i s = quiet_turn sp hp src day i s"
proof (cases "index_of (listpop s) i")
  case None
  then show ?thesis by (simp add: agent_turn_def quiet_turn_def)
next
  case (Some n)
  obtain retval h k where stp: "step sp hp src (rng s) (listpop s ! n) = (retval, h, k)"
    by (cases "step sp hp src (rng s) (listpop s ! n)")
  let ?s1 = "s\<lparr>listpop := (listpop s)[n := h], rng := k\<rparr>"
  have sk: "skipContagi ?s1" using assms by simp
  have i: "infect_loop sp hp src 0 0 ?s1 = Some ?s1"
    using sk by (intro infect_loop_stop) simp
  have m: "meet_loop sp hp src i (meeting hp) 0 ?s1 = Some ?s1"
    using sk by (intro meet_loop_stop) simp
  show ?thesis
    by (simp add: agent_turn_def quiet_turn_def Some stp Let_def i m)
qed


lemma tally_skip: "skipContagi (tally day h s) = skipContagi s"
  by (simp add: tally_def)

lemma agent_turn_skip:
  assumes "agent_turn sp hp src day i s = Some s'"
  shows "skipContagi s' = skipContagi s"
proof -
  from assms obtain s4 h where "frame s s4" "s' = tally day h s4"
    by (rule agent_turn_frame)
  then show ?thesis by (simp add: tally_skip frame_def)
qed

lemma agents_loop_quiet:
  "skipContagi s \<Longrightarrow> agents_loop sp hp src day is s = quiet_agents_loop sp hp src day is s"
proof (induction "is" arbitrary: s)
  case Nil
  show ?case by simp
next
  case (Cons i "is")
  show ?case
  proof (cases "agent_turn sp hp src day i s")
    case None
    with Cons.prems show ?thesis
      by (simp add: agent_turn_quiet [symmetric])
  next
    case (Some s1)
    with Cons.prems have "skipContagi s1"
      by (simp add: agent_turn_skip)
    from Cons.IH [OF this] Some Cons.prems show ?thesis
      by (simp add: agent_turn_quiet [symmetric])
  qed
qed

lemma agents_loop_skip:
  "agents_loop sp hp src day is s = Some s' \<Longrightarrow> skipContagi s' = skipContagi s"
proof (induction "is" arbitrary: s)
  case Nil
  then show ?case by simp
next
  case (Cons i "is")
  from Cons.prems obtain s1 where
    s1: "agent_turn sp hp src day i s = Some s1" "agents_loop sp hp src day is s1 = Some s'"
    by (auto split: Option.bind_splits)
  from Cons.IH [OF s1(2)] agent_turn_skip [OF s1(1)] show ?case by simp
qed

lemma day_end_skip:
  "skipContagi s \<Longrightarrow> skipContagi (day_end sp day s)"
  by (simp add: day_end_def Let_def)

lemma day_end_threshold:
  "of_int (nhealthy s ! day) < (3/10) * POP sp \<Longrightarrow> skipContagi (day_end sp day s)"
  by (simp add: day_end_def Let_def)

lemma days_loop_quiet:
  "skipContagi s \<Longrightarrow> days_loop sp hp src days s = quiet_days_loop sp hp src days s"
proof (induction days arbitrary: s)
  case Nil
  show ?case by simp
next
  case (Cons day days)
  show ?case
  proof (cases "agents_loop sp hp src day (range_py (py_int (POP sp))) s")
    case None
    with Cons.prems show ?thesis
      by (simp add: agents_loop_quiet [symmetric])
  next
    case (Some s1)
    with Cons.prems have "skipContagi s1"
      by (simp add: agents_loop_skip)
    then have "skipContagi (day_end sp day s1)"
      by (rule day_end_skip)
    from Cons.IH [OF this] Some Cons.prems show ?thesis
      by (simp add: agents_loop_quiet [symmetric])
  qed
qed

lemma days_loop_skip:
  "days_loop sp hp src days s = Some s' \<Longrightarrow> skipContagi s \<Longrightarrow> skipContagi s'"
proof (induction days arbitrary: s)
  case Nil
  then show ?case by simp
next
  case (Cons day days)
  from Cons.prems(1) obtain s1 where
    s1: "agents_loop sp hp src day (range_py (py_int (POP sp))) s = Some s1"
      "days_loop sp hp src days (day_end sp day s1) = Some s'"
    by (auto split: Option.bind_splits)
  from agents_loop_skip [OF s1(1)] Cons.prems(2) have "skipContagi (day_end sp day s1)"
    by (simp add: day_end_skip)
  from Cons.IH [OF s1(2) this] show ?case .
qed


lemma quiet_pop_refl: "quiet_pop pop pop"
  by (simp add: quiet_pop_def quiet_agent_def)

lemma quiet_pop_trans: "quiet_pop p1 p2 \<Longrightarrow> quiet_pop p2 p3 \<Longrightarrow> quiet_pop p1 p3"
  by (auto simp add: quiet_pop_def quiet_agent_def)

lemma quiet_pop_update:
  assumes "quiet_agent (pop ! n) h"
  shows "quiet_pop pop (pop[n := h])"
proof -
  have "quiet_agent (pop ! i) (pop[n := h] ! i)" if "i < length pop" for i
  proof (cases "i = n")
    case True
    with that assms show ?thesis by simp
  next
    case False
    then show ?thesis by (simp add: quiet_agent_def)
  qed
  then show ?thesis by (simp add: quiet_pop_def)
qed

lemma step_quarantine_quiet: "quiet_agent h (step_quarantine h)"
  by (simp add: quiet_agent_def step_quarantine_def quarantineEnd_def Let_def)

lemma incubend_quiet: "quiet_agent h (fst (snd (incubend sp hp src k h)))"
  by (simp add: quiet_agent_def incubend_eq)

lemma step_incub_quiet: "quiet_agent h (fst (snd (step_incub sp hp src k h)))"
proof (cases "st h = incub")
  case False
  then show ?thesis by (simp add: quiet_agent_def step_incub_def)
next
  case True
  then show ?thesis
    by (simp add: quiet_agent_def step_incub_def incubend_eq Let_def split: prod.splits)
qed

lemma step_ill_quiet: "quiet_agent h (snd (step_ill r h))"
  by (simp add: quiet_agent_def step_ill_def Let_def)

lemma quiet_agent_trans: "quiet_agent h1 h2 \<Longrightarrow> quiet_agent h2 h3 \<Longrightarrow> quiet_agent h1 h3"
  by (auto simp add: quiet_agent_def)

lemma step_quiet: "quiet_agent h (fst (snd (step sp hp src k h)))"
proof -
  obtain r h2 k2 where i: "step_incub sp hp src k (step_quarantine h) = (r, h2, k2)"
    by (cases "step_incub sp hp src k (step_quarantine h)")
  have "quiet_agent (step_quarantine h) h2"
    using step_incub_quiet [of "step_quarantine h" sp hp src k] i by simp
  with step_quarantine_quiet have "quiet_agent h h2"
    by (rule quiet_agent_trans)
  moreover have "quiet_agent h2 (snd (step_ill r h2))"
    by (rule step_ill_quiet)
  ultimately have "quiet_agent h (snd (step_ill r h2))"
    by (rule quiet_agent_trans)
  then show ?thesis
    by (cases "step_ill r h2") (simp add: step_def i)
qed

lemma appAlarm_quiet: "quiet_agent h (fst (appAlarm sp hp src k p h))"
  by (simp add: quiet_agent_def appAlarm_def)

lemma alarm_loop_quiet:
  "alarm_loop sp hp src i js s = Some s' \<Longrightarrow> quiet_pop (listpop s) (listpop s')"
proof (induction js arbitrary: s)
  case Nil
  then show ?case by (simp add: quiet_pop_refl)
next
  case (Cons j js)
  from Cons.prems obtain n m where nm: "index_of (listpop s) j = Some n" "index_of (listpop s) i = Some m"
    by (auto split: Option.bind_splits)
  obtain h k where hk: "appAlarm sp hp src (rng s) (getId (listpop s ! m)) (listpop s ! n) = (h, k)"
    by (cases "appAlarm sp hp src (rng s) (getId (listpop s ! m)) (listpop s ! n)")
  from Cons.prems nm hk
  have "alarm_loop sp hp src i js (s\<lparr>listpop := (listpop s)[n := h], rng := k\<rparr>) = Some s'"
    by simp
  from Cons.IH [OF this] have "quiet_pop ((listpop s)[n := h]) (listpop s')"
    by simp
  moreover have "quiet_pop (listpop s) ((listpop s)[n := h])"
    using appAlarm_quiet [of "listpop s ! n" sp hp src "rng s" "getId (listpop s ! m)"] hk
    by (intro quiet_pop_update) simp
  ultimately show ?case
    by (blast intro: quiet_pop_trans)
qed

lemma quiet_turn_pop:
  assumes "quiet_turn sp hp src day i s = Some s'"
  shows "quiet_pop (listpop s) (listpop s')"
proof -
  from assms obtain n where n: "index_of (listpop s) i = Some n"
    by (auto simp add: quiet_turn_def split: Option.bind_splits)
  obtain retval h k where stp: "step sp hp src (rng s) (listpop s ! n) = (retval, h, k)"
    by (cases "step sp hp src (rng s) (listpop s ! n)")
  let ?s1 = "s\<lparr>listpop := (listpop s)[n := h], rng := k\<rparr>"
  from assms n stp obtain s4 where
    s4: "(if retval AND DO_ALARM \<noteq> 0 then alarm_loop sp hp src i (meetingList (listpop ?s1 ! n)) ?s1 else Some ?s1) = Some s4"
    and s': "s' = tally day (listpop s4 ! n) s4"
    by (auto simp add: quiet_turn_def Let_def split: Option.bind_splits)
  have "quiet_pop (listpop s) (listpop ?s1)"
    using step_quiet [of "listpop s ! n" sp hp src "rng s"] stp
    by (simp add: quiet_pop_update)
  moreover have "quiet_pop (listpop ?s1) (listpop s4)"
  proof (cases "retval AND DO_ALARM \<noteq> 0")
    case True
    with s4 have "alarm_loop sp hp src i (meetingList (listpop ?s1 ! n)) ?s1 = Some s4"
      by simp
    then show ?thesis by (rule alarm_loop_quiet)
  next
    case False
    with s4 have "s4 = ?s1" by simp
    then show ?thesis by (simp add: quiet_pop_refl)
  qed
  ultimately show ?thesis
    unfolding s' by (auto simp add: tally_def intro: quiet_pop_trans)
qed

lemma quiet_agents_loop_pop:
  "quiet_agents_loop sp hp src day is s = Some s' \<Longrightarrow> quiet_pop (listpop s) (listpop s')"
proof (induction "is" arbitrary: s)
  case Nil
  then show ?case by (simp add: quiet_pop_refl)
next
  case (Cons i "is")
  from Cons.prems obtain s1 where
    s1: "quiet_turn sp hp src day i s = Some s1" "quiet_agents_loop sp hp src day is s1 = Some s'"
    by (auto split: Option.bind_splits)
  from quiet_turn_pop [OF s1(1)] Cons.IH [OF s1(2)] show ?case
    by (rule quiet_pop_trans)
qed

lemma quiet_days_loop_pop:
  "quiet_days_loop sp hp src days s = Some s' \<Longrightarrow> quiet_pop (listpop s) (listpop s')"
proof (induction days arbitrary: s)
  case Nil
  then show ?case by (simp add: quiet_pop_refl)
next
  case (Cons day days)
  from Cons.prems obtain s1 where
    s1: "quiet_agents_loop sp hp src day (range_py (py_int (POP sp))) s = Some s1"
      "quiet_days_loop sp hp src days (day_end sp day s1) = Some s'"
    by (auto split: Option.bind_splits)
  from Cons.IH [OF s1(2)] have "quiet_pop (listpop s1) (listpop s')"
    by (simp add: day_end_total)
  with quiet_agents_loop_pop [OF s1(1)] show ?case
    by (rule quiet_pop_trans)
qed

text \<open>
  C8. Let \<open>s\<close> be the state of the run after the pass over the agents of some day, with
  a healthy count of that day below \<open>0.3 * POP\<close>. Then the end of that day sets
  \<^verbatim>\<open>skipContagi\<close>; the loop over all the remaining days is the loop without sampling,
  in which every agent is still stepped every day, alarms are still passed on and the
  counters are kept; and at the end of the run the flag is still set, no meeting list has
  changed and no agent is incubating that was not.
\<close>

theorem sampling_stops_below_threshold:
  assumes "of_int (nhealthy s ! day) < (3/10) * POP sp"
  shows "skipContagi (day_end sp day s)
       \<and> days_loop sp hp src days (day_end sp day s) = quiet_days_loop sp hp src days (day_end sp day s)
       \<and> (\<forall>s'. days_loop sp hp src days (day_end sp day s) = Some s' \<longrightarrow>
             skipContagi s' \<and> quiet_pop (listpop s) (listpop s'))"
proof -
  have sk: "skipContagi (day_end sp day s)"
    using assms by (rule day_end_threshold)
  have q: "days_loop sp hp src days (day_end sp day s) = quiet_days_loop sp hp src days (day_end sp day s)"
    using sk by (rule days_loop_quiet)
  have "skipContagi s' \<and> quiet_pop (listpop s) (listpop s')"
    if "days_loop sp hp src days (day_end sp day s) = Some s'" for s'
    using days_loop_skip [OF that sk] quiet_days_loop_pop [OF that [unfolded q]]
    by (simp add: day_end_total)
  with sk q show ?thesis by blast
qed


text \<open>With all three agents infected on day 0, the healthy count of that day is 0.\<close>

lemma sick_day_returns:
  "(case experiment_init sickSim hp1 half 0 of None \<Rightarrow> False
    | Some (pop, k) \<Rightarrow>
        (case agents_loop sickSim hp1 half 0 (range_py (py_int (POP sickSim))) (run_start sickSim pop k) of
           None \<Rightarrow> False
         | Some s \<Rightarrow> of_int (nhealthy s ! 0) < (3/10) * POP sickSim))"
  by code_simp

text \<open>C8 on that run: the threshold is passed on day 0, the second day runs without sampling.\<close>

theorem sampling_stops_below_threshold_witness:
  "\<exists>pop k s. experiment_init sickSim hp1 half 0 = Some (pop, k)
     \<and> agents_loop sickSim hp1 half 0 (range_py (py_int (POP sickSim))) (run_start sickSim pop k) = Some s
     \<and> of_int (nhealthy s ! 0) < (3/10) * POP sickSim
     \<and> skipContagi (day_end sickSim 0 s)
     \<and> days_loop sickSim hp1 half [1] (day_end sickSim 0 s) = quiet_days_loop sickSim hp1 half [1] (day_end sickSim 0 s)"
proof -
  from sick_day_returns obtain pop k s where
    r: "experiment_init sickSim hp1 half 0 = Some (pop, k)"
      "agents_loop sickSim hp1 half 0 (range_py (py_int (POP sickSim))) (run_start sickSim pop k) = Some s"
      "of_int (nhealthy s ! 0) < (3/10) * POP sickSim"
    by (auto split: option.splits)
  from sampling_stops_below_threshold [OF r(3), of hp1 half "[1]"] r show ?thesis
    by blast
qed

end
